theory Spec2Isabelle
  imports Complex_Main "HOL-Library.AList"
begin

section \<open>The dashboard client: data model\<close>

text \<open>
  The development follows the richest of the three dashboard scripts (the one that keeps
  \<open>simulationHistory\<close> and \<open>traderHistory\<close>); \<open>static/js/dashboard.js\<close> has the same
  \<open>updatePriceChart\<close>, \<open>updateNews\<close>, \<open>updateAgents\<close>, pause guard and start handler, without
  the history and ledger variables.

  Conventions of the embedding.
  \<^item> A number of a decoded payload is a finite double; it is modelled as the rational it
    denotes (\<open>num\<close>). Results of JavaScript arithmetic are of type \<open>jsnum\<close>: the exact
    result rounded to a double, or an infinity, or \<open>NaN\<close>. The sign of zero is not modelled.
  \<^item> A string is a list of code units; \<open>char\<close> covers the code units below 256, which
    is enough for the literals of the source.
  \<^item> A top-level field of a snapshot that is absent reads as \<open>undefined\<close> in JavaScript;
    it is \<open>None\<close> here (\<open>step\<close>, \<open>price\<close>, \<open>news\<close>, \<open>decisions\<close>, \<open>llm\<close>). The nested
    objects of a snapshot are taken as typed.
  \<^item> A handler returns the exception it threw, if any, together with the store as the
    handler left it: a JavaScript exception does not undo the assignments made before it.
  \<^item> Writes to the page (DOM text, styles, the datasets of the comparison, actions and
    performance charts, which are recomputed from the store) are not part of the store.
\<close>

type_synonym num = rat

datatype jsnum = Finite rat | PosInfinity | NegInfinity | NaN

datatype exn = TypeError

record AgentDecision =
  d_name :: string
  d_action :: string
  d_cash :: num
  d_pos :: num
  d_value :: num

record Portfolio =
  p_cash :: num
  p_pos :: num
  p_value :: num

record Proposal =
  pr_action :: string
  pr_size :: num
  pr_rationale :: string

record RiskAssessment =
  r_name :: string
  r_approved :: bool
  r_size :: num
  r_comment :: string

record ManagerDecision =
  m_approved :: bool
  final_action :: string
  final_size :: num
  m_comment :: string

record GeneralAnalysis =
  stance :: string
  ga_text :: string

record LLMSnapshot =
  bullish :: string
  bearish :: string
  general_analysis :: "GeneralAnalysis option"
  proposal :: Proposal
  risk_assessments :: "RiskAssessment list"
  manager_decision :: ManagerDecision
  portfolio :: Portfolio

record StepSnapshot =
  step :: "num option"
  total_steps :: num
  price :: "num option"
  news :: "string option"
  decisions :: "AgentDecision list option"
  llm :: "LLMSnapshot option"

text \<open>The payload of \<open>simulation_finished\<close>.\<close>

record FinishedData =
  message :: string
  history :: "StepSnapshot list option"

text \<open>One row of a trader's ledger, as \<open>trackTraderHistory\<close> builds it.\<close>

record TraderRecord =
  h_step :: "num option"
  h_action :: string
  h_cash :: num
  h_position :: num
  h_value :: num

text \<open>The label \<open>`Step ${step}`\<close> of a point of the price chart.\<close>

datatype chart_label = StepLabel "num option"

record PriceChart =
  labels :: "chart_label list"
  data :: "num option list"

text \<open>
  \<open>actionCounts\<close>: the three counters (a counter is a double that only ever grows by 1 from
  0, exact below \<open>2^53\<close>), and the own properties that \<open>actionCounts[a]++\<close> creates when \<open>a\<close>
  names a property inherited from \<open>Object.prototype\<close>; their value is \<open>NaN\<close>.
\<close>

record ActionCounts =
  buy :: nat
  sell :: nat
  hold :: nat
  nan_keys :: "string list"

text \<open>
  The module-level variables. An object used as a dictionary is an association list in
  insertion order. The handles of the comparison, actions and performance charts are kept
  as flags (\<open>null\<close> or created). (The runtime enumerates keys that are array indices
  before the others; the order of keys plays no part below.)
\<close>

record Store =
  priceChart :: "PriceChart option"
  comparisonChart :: bool
  actionsChart :: bool
  performanceChart :: bool
  agentPerformance :: "(string \<times> num) list"
  actionCounts :: ActionCounts
  isPaused :: bool
  simulationHistory :: "StepSnapshot list"
  traderHistory :: "(string \<times> TraderRecord list) list"

definition initial_store :: Store where
  "initial_store =
     \<lparr>priceChart = None, comparisonChart = False, actionsChart = False,
      performanceChart = False, agentPerformance = [],
      actionCounts = \<lparr>buy = 0, sell = 0, hold = 0, nan_keys = []\<rparr>,
      isPaused = False, simulationHistory = [], traderHistory = []\<rparr>"

text \<open>The property names every plain object inherits from \<open>Object.prototype\<close>.\<close>

definition object_prototype_keys :: "string list" where
  "object_prototype_keys =
     [''constructor'', ''__defineGetter__'', ''__defineSetter__'', ''hasOwnProperty'',
      ''__lookupGetter__'', ''__lookupSetter__'', ''isPrototypeOf'',
      ''propertyIsEnumerable'', ''toString'', ''valueOf'', ''__proto__'',
      ''toLocaleString'']"

section \<open>String helpers of the runtime\<close>

text \<open>\<open>s.includes(t)\<close>: \<open>t\<close> occurs in \<open>s\<close> as a contiguous run of code units.\<close>

fun starts_with :: "string \<Rightarrow> string \<Rightarrow> bool" where
  "starts_with s [] = True"
| "starts_with [] (c # t) = False"
| "starts_with (b # s) (c # t) = (b = c \<and> starts_with s t)"

fun str_includes :: "string \<Rightarrow> string \<Rightarrow> bool" where
  "str_includes [] t = (t = [])"
| "str_includes (c # s) t = (starts_with (c # s) t \<or> str_includes s t)"

section \<open>The update handlers\<close>

text \<open>\<open>initCharts\<close>, run on \<open>DOMContentLoaded\<close>: the four charts are created empty.\<close>

definition initCharts :: "Store \<Rightarrow> Store" where
  "initCharts s =
     s\<lparr>priceChart := Some \<lparr>labels = [], data = []\<rparr>, comparisonChart := True,
       actionsChart := True, performanceChart := True\<rparr>"

text \<open>
  \<open>updatePriceChart(price, step)\<close>: push the label and the price, then drop the oldest
  point of both arrays when there are more than 30 labels.
\<close>

definition updatePriceChart :: "Store \<Rightarrow> num option \<Rightarrow> num option \<Rightarrow> Store" where
  "updatePriceChart s p st =
     (case priceChart s of
        None \<Rightarrow> s
      | Some c \<Rightarrow>
          if isPaused s then s
          else
            let ls = labels c @ [StepLabel st];
                ds = data c @ [p]
            in if length ls > 30
               then s\<lparr>priceChart := Some \<lparr>labels = tl ls, data = tl ds\<rparr>\<rparr>
               else s\<lparr>priceChart := Some \<lparr>labels = ls, data = ds\<rparr>\<rparr>)"

text \<open>
  \<open>updateNews(news, price, history)\<close>: the sentiment label and its two colours
  (\<open>sentimentColor\<close>, \<open>iconColor\<close>). \<open>news.includes\<close> throws when \<open>news\<close> is \<open>undefined\<close>.
\<close>

definition updateNews :: "string option \<Rightarrow> exn + (string \<times> string \<times> string)" where
  "updateNews n =
     (case n of
        None \<Rightarrow> Inl TypeError
      | Some txt \<Rightarrow>
          if str_includes txt ''Very positive'' \<or> str_includes txt ''rally''
          then Inr (''Bullish'', ''#d1fae5'', ''#10b981'')
          else if str_includes txt ''positive'' \<or> str_includes txt ''upward''
          then Inr (''Positive'', ''#d1fae5'', ''#10b981'')
          else if str_includes txt ''Very negative'' \<or> str_includes txt ''crash''
          then Inr (''Bearish'', ''#fee2e2'', ''#ef4444'')
          else if str_includes txt ''negative'' \<or> str_includes txt ''declin''
          then Inr (''Negative'', ''#fee2e2'', ''#ef4444'')
          else Inr (''neutral'', ''#e0e7ff'', ''#667eea''))"

text \<open>
  \<open>obj[k] = v\<close> for a primitive \<open>v\<close>: an own property is written or created, except for
  \<open>__proto__\<close>, whose setter ignores a value that is not an object.
\<close>

definition set_property :: "string \<Rightarrow> 'v \<Rightarrow> (string \<times> 'v) list \<Rightarrow> (string \<times> 'v) list" where
  "set_property k v obj = (if k = ''__proto__'' then obj else AList.update k v obj)"

text \<open>\<open>a in actionCounts\<close>: own and inherited properties.\<close>

definition in_actionCounts :: "string \<Rightarrow> ActionCounts \<Rightarrow> bool" where
  "in_actionCounts a c =
     (a = ''buy'' \<or> a = ''sell'' \<or> a = ''hold'' \<or> a \<in> set (nan_keys c)
      \<or> a \<in> set object_prototype_keys)"

text \<open>\<open>actionCounts[a]++\<close>, for \<open>a in actionCounts\<close>.\<close>

definition increment :: "string \<Rightarrow> ActionCounts \<Rightarrow> ActionCounts" where
  "increment a c =
     (if a = ''buy'' then c\<lparr>buy := buy c + 1\<rparr>
      else if a = ''sell'' then c\<lparr>sell := sell c + 1\<rparr>
      else if a = ''hold'' then c\<lparr>hold := hold c + 1\<rparr>
      else if a = ''__proto__'' then c
      else c\<lparr>nan_keys := List.insert a (nan_keys c)\<rparr>)"

text \<open>The body of the \<open>forEach\<close> of \<open>updateAgents\<close>, for one agent.\<close>

definition updateAgent :: "Store \<Rightarrow> AgentDecision \<Rightarrow> Store" where
  "updateAgent s agent =
     (let s1 = s\<lparr>agentPerformance :=
                  set_property (d_name agent) (d_value agent) (agentPerformance s)\<rparr>
      in if in_actionCounts (d_action agent) (actionCounts s1)
         then s1\<lparr>actionCounts := increment (d_action agent) (actionCounts s1)\<rparr>
         else s1)"

definition updateAgents :: "Store \<Rightarrow> AgentDecision list option \<Rightarrow> exn option \<times> Store" where
  "updateAgents s ds =
     (case ds of
        None \<Rightarrow> (Some TypeError, s)
      | Some agents \<Rightarrow> (None, foldl updateAgent s agents))"

text \<open>
  \<open>updateLLMPipeline(llm)\<close>: everything but the last assignment writes to the page;
  \<open>llm.bullish\<close> throws when \<open>llm\<close> is \<open>undefined\<close>.
\<close>

definition updateLLMPipeline :: "Store \<Rightarrow> LLMSnapshot option \<Rightarrow> exn option \<times> Store" where
  "updateLLMPipeline s l =
     (case l of
        None \<Rightarrow> (Some TypeError, s)
      | Some l' \<Rightarrow>
          (None, s\<lparr>agentPerformance :=
                     set_property ''LLM Fund'' (p_value (portfolio l')) (agentPerformance s)\<rparr>))"

text \<open>
  \<open>updatePortfolioStats(decisions, llm, price)\<close> only writes to the page. It spreads
  \<open>decisions\<close>, reads \<open>llm.portfolio.value\<close> and calls \<open>price.toFixed(2)\<close>.
\<close>

definition updatePortfolioStats ::
  "AgentDecision list option \<Rightarrow> LLMSnapshot option \<Rightarrow> num option \<Rightarrow> exn option" where
  "updatePortfolioStats ds l p =
     (if ds = None \<or> l = None \<or> p = None then Some TypeError else None)"

text \<open>
  The ledger step for one trader: \<open>if (!traderHistory[k]) traderHistory[k] = []\<close>, then
  \<open>traderHistory[k].push(r)\<close>. When \<open>k\<close> is not an own key but names an inherited
  property, the lookup is truthy and has no \<open>push\<close>: the call throws.
\<close>

definition ledger_push ::
  "string \<Rightarrow> TraderRecord \<Rightarrow> (string \<times> TraderRecord list) list
     \<Rightarrow> exn option \<times> (string \<times> TraderRecord list) list" where
  "ledger_push k r th =
     (case map_of th k of
        Some h \<Rightarrow> (None, AList.update k (h @ [r]) th)
      | None \<Rightarrow>
          if k \<in> set object_prototype_keys then (Some TypeError, th)
          else (None, AList.update k [r] th))"

definition agent_record :: "num option \<Rightarrow> AgentDecision \<Rightarrow> TraderRecord" where
  "agent_record st agent =
     \<lparr>h_step = st, h_action = d_action agent, h_cash = d_cash agent,
      h_position = d_pos agent, h_value = d_value agent\<rparr>"

definition llm_record :: "num option \<Rightarrow> LLMSnapshot \<Rightarrow> TraderRecord" where
  "llm_record st l =
     \<lparr>h_step = st, h_action = final_action (manager_decision l),
      h_cash = p_cash (portfolio l), h_position = p_pos (portfolio l),
      h_value = p_value (portfolio l)\<rparr>"

text \<open>The \<open>forEach\<close> of \<open>trackTraderHistory\<close>: it stops at the first throw.\<close>

fun track_agents ::
  "AgentDecision list \<Rightarrow> num option \<Rightarrow> (string \<times> TraderRecord list) list
     \<Rightarrow> exn option \<times> (string \<times> TraderRecord list) list" where
  "track_agents [] st th = (None, th)"
| "track_agents (agent # rest) st th =
     (case ledger_push (d_name agent) (agent_record st agent) th of
        (Some e, th') \<Rightarrow> (Some e, th')
      | (None, th') \<Rightarrow> track_agents rest st th')"

text \<open>
  \<open>trackTraderHistory(decisions, step, llm)\<close>. For the fund the empty array is stored
  before the argument of \<open>push\<close> is evaluated, so an \<open>undefined\<close> \<open>llm\<close> throws after the
  key has been created.
\<close>

definition trackTraderHistory ::
  "Store \<Rightarrow> AgentDecision list option \<Rightarrow> num option \<Rightarrow> LLMSnapshot option
     \<Rightarrow> exn option \<times> Store" where
  "trackTraderHistory s ds st l =
     (case ds of
        None \<Rightarrow> (Some TypeError, s)
      | Some agents \<Rightarrow>
          (case track_agents agents st (traderHistory s) of
             (Some e, th) \<Rightarrow> (Some e, s\<lparr>traderHistory := th\<rparr>)
           | (None, th) \<Rightarrow>
               (case l of
                  None \<Rightarrow>
                    (Some TypeError,
                     s\<lparr>traderHistory :=
                         (case map_of th ''LLM Fund'' of
                            None \<Rightarrow> AList.update ''LLM Fund'' [] th
                          | Some h \<Rightarrow> th)\<rparr>)
                | Some l' \<Rightarrow>
                    (case ledger_push ''LLM Fund'' (llm_record st l') th of
                       (e, th') \<Rightarrow> (e, s\<lparr>traderHistory := th'\<rparr>)))))"

text \<open>
  \<open>updatePerformanceChart()\<close> rebuilds the datasets from the whole history. It reads
  \<open>step.decisions\<close> and \<open>step.llm.portfolio.value\<close> of every entry, and for every
  trader name met it calls \<open>(colors[traderName] || "...").replace\<close>, where \<open>colors\<close> is a
  plain object: for a name inherited from \<open>Object.prototype\<close> the lookup is truthy and has
  no \<open>replace\<close>. \<open>breaks_chart\<close> holds of an entry that makes one of these throw.
\<close>

definition breaks_chart :: "StepSnapshot \<Rightarrow> bool" where
  "breaks_chart h =
     (case decisions h of
        None \<Rightarrow> True
      | Some agents \<Rightarrow>
          list_ex (\<lambda>a. d_name a \<in> set object_prototype_keys) agents \<or> llm h = None)"

definition updatePerformanceChart :: "Store \<Rightarrow> exn option" where
  "updatePerformanceChart s =
     (if \<not> performanceChart s \<or> simulationHistory s = [] then None
      else if list_ex breaks_chart (simulationHistory s) then Some TypeError
      else None)"

text \<open>Sequencing: the rest of a handler runs only when nothing was thrown.\<close>

definition and_then ::
  "exn option \<times> Store \<Rightarrow> (Store \<Rightarrow> exn option \<times> Store) \<Rightarrow> exn option \<times> Store" where
  "and_then r f = (case r of (None, s) \<Rightarrow> f s | (Some e, s) \<Rightarrow> (Some e, s))"

definition of_sum :: "exn + 'a \<Rightarrow> Store \<Rightarrow> exn option \<times> Store" where
  "of_sum r s = (case r of Inl e \<Rightarrow> (Some e, s) | Inr v \<Rightarrow> (None, s))"

text \<open>\<open>socket.on("update", ...)\<close>. The progress bar is page state only.\<close>

definition on_update :: "Store \<Rightarrow> StepSnapshot \<Rightarrow> exn option \<times> Store" where
  "on_update s d =
     (if isPaused s then (None, s)
      else
        and_then (None, updatePriceChart
                          (s\<lparr>simulationHistory := simulationHistory s @ [d]\<rparr>)
                          (price d) (step d)) (\<lambda>s2.
        and_then (of_sum (updateNews (news d)) s2) (\<lambda>s3.
        and_then (updateAgents s3 (decisions d)) (\<lambda>s4.
        and_then (updateLLMPipeline s4 (llm d)) (\<lambda>s5.
        and_then (updatePortfolioStats (decisions d) (llm d) (price d), s5) (\<lambda>s6.
        and_then (trackTraderHistory s6 (decisions d) (step d) (llm d)) (\<lambda>s7.
        (updatePerformanceChart s7, s7))))))))"

text \<open>
  The same handler in \<open>static/js/dashboard.js\<close>, which keeps no history and no ledgers.
\<close>

definition dashboard_on_update :: "Store \<Rightarrow> StepSnapshot \<Rightarrow> exn option \<times> Store" where
  "dashboard_on_update s d =
     (if isPaused s then (None, s)
      else
        and_then (None, updatePriceChart s (price d) (step d)) (\<lambda>s2.
        and_then (of_sum (updateNews (news d)) s2) (\<lambda>s3.
        and_then (updateAgents s3 (decisions d)) (\<lambda>s4.
        and_then (updateLLMPipeline s4 (llm d)) (\<lambda>s5.
        (updatePortfolioStats (decisions d) (llm d) (price d), s5))))))"

text \<open>The pause button toggles the flag.\<close>

definition on_pause :: "Store \<Rightarrow> Store" where
  "on_pause s = s\<lparr>isPaused := \<not> isPaused s\<rparr>"

section \<open>Start, completion and the event loop\<close>

text \<open>
  The click handler of the start button: the four assignments under \<open>// Reset data\<close>, then
  \<open>socket.emit("start_simulation")\<close>. The result is the store and the command sent.
\<close>

definition on_start :: "Store \<Rightarrow> Store \<times> string" where
  "on_start s =
     (s\<lparr>agentPerformance := [],
        actionCounts := \<lparr>buy = 0, sell = 0, hold = 0, nan_keys = []\<rparr>,
        simulationHistory := [],
        traderHistory := []\<rparr>,
      ''start_simulation'')"

text \<open>The start handler of \<open>static/js/dashboard.js\<close>: two assignments, then the command.\<close>

definition dashboard_on_start :: "Store \<Rightarrow> Store \<times> string" where
  "dashboard_on_start s =
     (s\<lparr>agentPerformance := [],
        actionCounts := \<lparr>buy = 0, sell = 0, hold = 0, nan_keys = []\<rparr>\<rparr>,
      ''start_simulation'')"

section \<open>Browsing the history\<close>

text \<open>
  \<open>Number.parseInt(s)\<close> without a radix: leading white space is skipped, then an
  optional sign, then an optional \<open>0x\<close> prefix that selects radix 16, then the longest run
  of digits; \<open>NaN\<close> (\<open>None\<close>) when that run is empty. The result is kept as the exact
  integer (the runtime rounds it to a double, which changes nothing below \<open>2^53\<close>).
\<close>

definition is_white_space :: "char \<Rightarrow> bool" where
  "is_white_space c = ((of_char c :: nat) \<in> set [9, 10, 11, 12, 13, 32, 160])"

definition digit_value :: "nat \<Rightarrow> char \<Rightarrow> nat option" where
  "digit_value radix c =
     (let n = (of_char c :: nat) in
      if 48 \<le> n \<and> n \<le> 57 then Some (n - 48)
      else if radix = 16 \<and> 97 \<le> n \<and> n \<le> 102 then Some (n - 87)
      else if radix = 16 \<and> 65 \<le> n \<and> n \<le> 70 then Some (n - 55)
      else None)"

fun digits_value :: "nat \<Rightarrow> nat \<Rightarrow> string \<Rightarrow> nat" where
  "digits_value radix acc [] = acc"
| "digits_value radix acc (c # cs) =
     (case digit_value radix c of
        None \<Rightarrow> acc
      | Some v \<Rightarrow> digits_value radix (acc * radix + v) cs)"

definition parse_digits :: "nat \<Rightarrow> string \<Rightarrow> nat option" where
  "parse_digits radix z =
     (case z of
        [] \<Rightarrow> None
      | c # cs \<Rightarrow>
          (case digit_value radix c of
             None \<Rightarrow> None
           | Some v \<Rightarrow> Some (digits_value radix 0 z)))"

definition parseInt :: "string \<Rightarrow> int option" where
  "parseInt inputString =
     (let s = dropWhile is_white_space inputString;
          negative = (s \<noteq> [] \<and> hd s = CHR ''-'');
          s1 = (if s \<noteq> [] \<and> (hd s = CHR ''+'' \<or> hd s = CHR ''-'') then tl s else s);
          hex = (starts_with s1 ''0x'' \<or> starts_with s1 ''0X'');
          z = (if hex then drop 2 s1 else s1)
      in case parse_digits (if hex then 16 else 10) z of
           None \<Rightarrow> None
         | Some m \<Rightarrow> Some (if negative then - int m else int m))"

text \<open>
  \<open>renderHistory(history, filter, searchTerm)\<close>. The result lists what is appended to
  the container: for each rendered entry its heading number \<open>index + 1\<close> and the entry.
  \<open>step.news.includes\<close>, \<open>step.price.toFixed\<close> and \<open>step.decisions.map\<close> throw on an
  \<open>undefined\<close> field.
\<close>

fun renderHistory_from ::
  "nat \<Rightarrow> StepSnapshot list \<Rightarrow> string \<Rightarrow> string \<Rightarrow> exn + (nat \<times> StepSnapshot) list" where
  "renderHistory_from index [] flt searchTerm = Inr []"
| "renderHistory_from index (st # rest) flt searchTerm =
     (if flt = ''step'' \<and> Some (int (index + 1)) \<noteq> parseInt searchTerm
      then renderHistory_from (Suc index) rest flt searchTerm
      else if flt = ''news'' \<and> news st = None then Inl TypeError
      else if flt = ''news''
              \<and> \<not> str_includes (case news st of None \<Rightarrow> [] | Some txt \<Rightarrow> txt) searchTerm
      then renderHistory_from (Suc index) rest flt searchTerm
      else if price st = None \<or> decisions st = None then Inl TypeError
      else
        (case renderHistory_from (Suc index) rest flt searchTerm of
           Inl e \<Rightarrow> Inl e
         | Inr out \<Rightarrow> Inr ((index + 1, st) # out)))"

definition renderHistory ::
  "StepSnapshot list \<Rightarrow> string \<Rightarrow> string \<Rightarrow> exn + (nat \<times> StepSnapshot) list" where
  "renderHistory h flt searchTerm = renderHistory_from 0 h flt searchTerm"

section \<open>Trader ledgers: summary and rows\<close>

text \<open>
  Rounding a rational to the nearest double (binary64, ties to the even significand):
  53 significant bits at the binary exponent \<open>e\<close> of the value, the spacing \<open>2^-1074\<close>
  below \<open>2^-1022\<close>, and an infinity once the rounded magnitude reaches \<open>2^1024\<close> (that
  is, \<open>e\<close> is 1024 or more, or \<open>e\<close> is 1023 and the significand rounds up to \<open>2^53\<close>).
\<close>

definition pow2 :: "int \<Rightarrow> rat" where
  "pow2 i = (if 0 \<le> i then 2 ^ nat i else 1 / 2 ^ nat (- i))"

function bits :: "int \<Rightarrow> nat" where
  "bits n = (if n \<le> 0 then 0 else Suc (bits (n div 2)))"
  by pat_completeness auto
termination
  by (relation "measure nat") auto

declare bits.simps [simp del]

text \<open>For \<open>q > 0\<close>, the \<open>e\<close> with \<open>2^e \<le> q < 2^(e + 1)\<close>.\<close>

definition binary_exponent :: "rat \<Rightarrow> int" where
  "binary_exponent q =
     (let k = int (bits (fst (quotient_of q))) - int (bits (snd (quotient_of q)))
      in if pow2 k \<le> q then k else k - 1)"

definition round_half_even :: "rat \<Rightarrow> int" where
  "round_half_even y =
     (let f = \<lfloor>y\<rfloor>; r = y - of_int f
      in if r < 1 / 2 then f else if 1 / 2 < r then f + 1
         else if even f then f else f + 1)"

definition round_double :: "rat \<Rightarrow> jsnum" where
  "round_double q =
     (if q = 0 then Finite 0
      else
        let e = max (binary_exponent \<bar>q\<bar>) (- 1022);
            ulp = pow2 (e - 52);
            m = round_half_even (\<bar>q\<bar> / ulp)
        in if 1024 \<le> e \<or> (e = 1023 \<and> m = 2 ^ 53)
           then (if 0 < q then PosInfinity else NegInfinity)
           else Finite (if 0 < q then of_int m * ulp else - (of_int m * ulp)))"

text \<open>A rational that is a double.\<close>

definition is_double :: "rat \<Rightarrow> bool" where
  "is_double q = (round_double q = Finite q)"

text \<open>
  Subtraction, division and multiplication of doubles, as far as the ledger tables use
  them: the exact result, rounded.
\<close>

definition js_sub :: "rat \<Rightarrow> rat \<Rightarrow> jsnum" where
  "js_sub a b = round_double (a - b)"

definition js_div :: "jsnum \<Rightarrow> rat \<Rightarrow> jsnum" where
  "js_div x b =
     (case x of
        Finite a \<Rightarrow>
          if b = 0
          then (if a = 0 then NaN else if a > 0 then PosInfinity else NegInfinity)
          else round_double (a / b)
      | PosInfinity \<Rightarrow> (if b < 0 then NegInfinity else PosInfinity)
      | NegInfinity \<Rightarrow> (if b < 0 then PosInfinity else NegInfinity)
      | NaN \<Rightarrow> NaN)"

definition js_times :: "jsnum \<Rightarrow> rat \<Rightarrow> jsnum" where
  "js_times x c =
     (case x of
        Finite a \<Rightarrow> round_double (a * c)
      | PosInfinity \<Rightarrow> (if c = 0 then NaN else if c > 0 then PosInfinity else NegInfinity)
      | NegInfinity \<Rightarrow> (if c = 0 then NaN else if c > 0 then NegInfinity else PosInfinity)
      | NaN \<Rightarrow> NaN)"

text \<open>
  \<open>x.toFixed(2)\<close>. A finite \<open>x\<close> below \<open>10^21\<close> in magnitude prints as the nearest
  multiple of \<open>1/100\<close> (the larger one on a tie), with a minus sign when \<open>x < 0\<close>; a larger
  one prints in exponent form, which is kept unprinted here.
\<close>

datatype numtext = Plain string | ExponentForm rat

definition digit :: "nat \<Rightarrow> char" where
  "digit n = ''0123456789'' ! n"

fun show_nat :: "nat \<Rightarrow> string" where
  "show_nat n = (if n < 10 then [digit n] else show_nat (n div 10) @ [digit (n mod 10)])"

definition toFixed2 :: "jsnum \<Rightarrow> numtext" where
  "toFixed2 x =
     (case x of
        NaN \<Rightarrow> Plain ''NaN''
      | PosInfinity \<Rightarrow> Plain ''Infinity''
      | NegInfinity \<Rightarrow> Plain ''-Infinity''
      | Finite q \<Rightarrow>
          if \<bar>q\<bar> \<ge> 10 ^ 21 then ExponentForm q
          else
            let n = nat \<lfloor>\<bar>q\<bar> * 100 + 1 / 2\<rfloor>
            in Plain ((if q < 0 then ''-'' else []) @ show_nat (n div 100) @ ''.''
                      @ [digit (n mod 100 div 10), digit (n mod 10)]))"

record TraderSummary =
  startValue :: num
  endValue :: num
  totalReturn :: numtext
  totalTrades :: nat

text \<open>
  The summary block of \<open>renderTraderHistory\<close> for one ledger. \<open>history[0].value\<close> throws
  on an empty ledger.
\<close>

definition traderSummary :: "TraderRecord list \<Rightarrow> exn + TraderSummary" where
  "traderSummary h =
     (case h of
        [] \<Rightarrow> Inl TypeError
      | r # rs \<Rightarrow>
          Inr \<lparr>startValue = h_value r,
               endValue = h_value (last h),
               totalReturn =
                 toFixed2
                   (js_times (js_div (js_sub (h_value (last h)) (h_value r)) (h_value r)) 100),
               totalTrades = length (filter (\<lambda>x. h_action x \<noteq> ''hold'') h)\<rparr>)"

text \<open>
  The \<open>Change\<close> column: \<open>valueChange\<close> and \<open>changePercent\<close> of a row, the latter guarded by
  \<open>prevValue > 0\<close>.
\<close>

definition changePercent :: "num \<Rightarrow> jsnum \<Rightarrow> numtext" where
  "changePercent prevValue valueChange =
     (if prevValue > 0 then toFixed2 (js_times (js_div valueChange prevValue) 100)
      else Plain ''0.00'')"

fun rows_from :: "num \<Rightarrow> TraderRecord list \<Rightarrow> (jsnum \<times> numtext) list" where
  "rows_from prevValue [] = []"
| "rows_from prevValue (r # rs) =
     (js_sub (h_value r) prevValue, changePercent prevValue (js_sub (h_value r) prevValue))
       # rows_from (h_value r) rs"

definition traderRows :: "TraderRecord list \<Rightarrow> (jsnum \<times> numtext) list" where
  "traderRows h = (case h of [] \<Rightarrow> [] | r # rs \<Rightarrow> rows_from (h_value r) h)"

text \<open>\<open>renderTraderHistory()\<close>: one tab per key of \<open>traderHistory\<close>.\<close>

fun renderTraderHistory ::
  "(string \<times> TraderRecord list) list
     \<Rightarrow> exn + (string \<times> TraderSummary \<times> (jsnum \<times> numtext) list) list" where
  "renderTraderHistory [] = Inr []"
| "renderTraderHistory ((traderName, h) # rest) =
     (case traderSummary h of
        Inl e \<Rightarrow> Inl e
      | Inr sm \<Rightarrow>
          (case renderTraderHistory rest of
             Inl e \<Rightarrow> Inl e
           | Inr out \<Rightarrow> Inr ((traderName, sm, traderRows h) # out)))"

text \<open>
  \<open>socket.on("simulation_finished", ...)\<close>:
  \<open>simulationHistory = data.history || simulationHistory\<close>, then the two renderings.
\<close>

definition on_finished :: "Store \<Rightarrow> FinishedData \<Rightarrow> exn option \<times> Store" where
  "on_finished s fd =
     (let s1 = s\<lparr>simulationHistory :=
                  (case history fd of None \<Rightarrow> simulationHistory s | Some h \<Rightarrow> h)\<rparr>
      in and_then (of_sum (renderHistory (simulationHistory s1) ''all'' []) s1) (\<lambda>s2.
         of_sum (renderTraderHistory (traderHistory s2)) s2))"

text \<open>
  The events that write the store, and the event loop: one handler at a time, run to
  completion; an exception ends the handler, not the loop.
\<close>

datatype event =
    DOMContentLoaded
  | StartClick
  | PauseClick
  | Update StepSnapshot
  | SimulationFinished FinishedData

fun handle :: "Store \<Rightarrow> event \<Rightarrow> exn option \<times> Store" where
  "handle s DOMContentLoaded = (None, initCharts s)"
| "handle s StartClick = (None, fst (on_start s))"
| "handle s PauseClick = (None, on_pause s)"
| "handle s (Update d) = on_update s d"
| "handle s (SimulationFinished fd) = on_finished s fd"

definition run :: "Store \<Rightarrow> event list \<Rightarrow> Store" where
  "run s evs = foldl (\<lambda>s' e. snd (handle s' e)) s evs"

text \<open>
  A sequence of snapshots, each accepted: the update handler ran to its end on each of
  them. \<open>None\<close> when one of them made the handler throw.
\<close>

fun accept_all :: "Store \<Rightarrow> StepSnapshot list \<Rightarrow> Store option" where
  "accept_all s [] = Some s"
| "accept_all s (d # ds) =
     (case on_update s d of
        (None, s') \<Rightarrow> accept_all s' ds
      | (Some e, s') \<Rightarrow> None)"

section \<open>Notions of the specification\<close>

text \<open>The rolling price window: the points of the price chart, oldest first.\<close>

definition price_window :: "Store \<Rightarrow> (chart_label \<times> num option) list" where
  "price_window s = (case priceChart s of None \<Rightarrow> [] | Some c \<Rightarrow> zip (labels c) (data c))"

definition window_point :: "StepSnapshot \<Rightarrow> chart_label \<times> num option" where
  "window_point d = (StepLabel (step d), price d)"

text \<open>The decisions a snapshot carries, and the recognised actions.\<close>

definition decisions_of :: "StepSnapshot \<Rightarrow> AgentDecision list" where
  "decisions_of d = (case decisions d of None \<Rightarrow> [] | Some agents \<Rightarrow> agents)"

definition recognized :: "string \<Rightarrow> bool" where
  "recognized a = (a = ''buy'' \<or> a = ''sell'' \<or> a = ''hold'')"

definition tally_sum :: "Store \<Rightarrow> nat" where
  "tally_sum s = buy (actionCounts s) + sell (actionCounts s) + hold (actionCounts s)"

text \<open>A trader's ledger: the array under the key, empty when there is no such key.\<close>

definition ledger_of :: "(string \<times> TraderRecord list) list \<Rightarrow> string \<Rightarrow> TraderRecord list" where
  "ledger_of th k = (case map_of th k of None \<Rightarrow> [] | Some h \<Rightarrow> h)"

definition ledger :: "Store \<Rightarrow> string \<Rightarrow> TraderRecord list" where
  "ledger s k = ledger_of (traderHistory s) k"

text \<open>The rows one snapshot contributes to the ledger of the trader \<open>k\<close>.\<close>

definition ledger_entries :: "StepSnapshot \<Rightarrow> string \<Rightarrow> TraderRecord list" where
  "ledger_entries d k =
     map (agent_record (step d)) (filter (\<lambda>a. d_name a = k) (decisions_of d))
     @ (if k = ''LLM Fund''
        then (case llm d of None \<Rightarrow> [] | Some l \<Rightarrow> [llm_record (step d) l])
        else [])"

text \<open>Every key of the ledger mapping has at least one row.\<close>

definition ledgers_nonempty :: "(string \<times> TraderRecord list) list \<Rightarrow> bool" where
  "ledgers_nonempty th = list_all (\<lambda>kh. snd kh \<noteq> []) th"

text \<open>
  The classifier as the specification words it: an ordered list of rules, each a list
  of key words and a category; the first rule with a key word contained in the news wins.
  \<open>occurs w txt\<close> is containment as such.
\<close>

datatype sentiment = Bullish | Positive | Bearish | Negative | Neutral

definition occurs :: "string \<Rightarrow> string \<Rightarrow> bool" where
  "occurs w txt = (\<exists>before after. txt = before @ w @ after)"

definition sentiment_rules :: "(string list \<times> sentiment) list" where
  "sentiment_rules =
     [([''Very positive'', ''rally''], Bullish),
      ([''positive'', ''upward''], Positive),
      ([''Very negative'', ''crash''], Bearish),
      ([''negative'', ''declin''], Negative)]"

fun first_match :: "(string list \<times> sentiment) list \<Rightarrow> string \<Rightarrow> sentiment" where
  "first_match [] txt = Neutral"
| "first_match ((ws, category) # rules) txt =
     (if list_ex (\<lambda>w. occurs w txt) ws then category else first_match rules txt)"

definition classify :: "string \<Rightarrow> sentiment" where
  "classify txt = first_match sentiment_rules txt"

text \<open>The text the badge shows for a category.\<close>

fun badge_text :: "sentiment \<Rightarrow> string" where
  "badge_text Bullish = ''Bullish''"
| "badge_text Positive = ''Positive''"
| "badge_text Bearish = ''Bearish''"
| "badge_text Negative = ''Negative''"
| "badge_text Neutral = ''neutral''"

text \<open>
  A well-formed snapshot: the four fields the handler dereferences are present, and no
  trader is named like an inherited property of the ledger object. A history whose
  entries can all be charted.
\<close>

definition wf_snapshot :: "StepSnapshot \<Rightarrow> bool" where
  "wf_snapshot d =
     (news d \<noteq> None \<and> price d \<noteq> None \<and> llm d \<noteq> None \<and> decisions d \<noteq> None
      \<and> list_all (\<lambda>a. d_name a \<notin> set object_prototype_keys) (decisions_of d))"

definition chartable :: "StepSnapshot list \<Rightarrow> bool" where
  "chartable h = list_all (\<lambda>e. \<not> breaks_chart e) h"



section \<open>Example payloads\<close>

definition ex_llm :: LLMSnapshot where
  "ex_llm =
     \<lparr>bullish = ''demand is rising'', bearish = ''volume is thin'', general_analysis = None,
      proposal = \<lparr>pr_action = ''buy'', pr_size = 1, pr_rationale = ''momentum''\<rparr>,
      risk_assessments = [],
      manager_decision =
        \<lparr>m_approved = True, final_action = ''buy'', final_size = 1, m_comment = ''ok''\<rparr>,
      portfolio = \<lparr>p_cash = 900, p_pos = 1, p_value = 1000\<rparr>\<rparr>"

definition ex_agent :: "string \<Rightarrow> string \<Rightarrow> num \<Rightarrow> AgentDecision" where
  "ex_agent n a v = \<lparr>d_name = n, d_action = a, d_cash = v, d_pos = 0, d_value = v\<rparr>"

definition ex_snapshot :: "num \<Rightarrow> num \<Rightarrow> StepSnapshot" where
  "ex_snapshot st p =
     \<lparr>step = Some st, total_steps = 50, price = Some p, news = Some ''steady session'',
      decisions = Some [ex_agent ''Random'' ''buy'' 1000, ex_agent ''Holder'' ''wait'' 990],
      llm = Some ex_llm\<rparr>"

text \<open>The same snapshot without its \<open>news\<close> field.\<close>

definition ex_no_news :: StepSnapshot where
  "ex_no_news = (ex_snapshot 1 100)\<lparr>news := None\<rparr>"

text \<open>The store once the charts exist, and after one update.\<close>

definition ex_fresh :: Store where
  "ex_fresh = initCharts initial_store"

definition ex_running :: Store where
  "ex_running = snd (on_update ex_fresh (ex_snapshot 1 100))"

text \<open>A feed of 32 snapshots, steps 1 to 32.\<close>

definition ex_feed :: "StepSnapshot list" where
  "ex_feed = map (\<lambda>n. ex_snapshot (of_nat n) (100 + of_nat n)) [1..<33]"

text \<open>A trader named like an inherited property, with an action that is one too.\<close>

definition ex_odd :: StepSnapshot where
  "ex_odd = (ex_snapshot 3 102)\<lparr>decisions := Some [ex_agent ''constructor'' ''toString'' 5]\<rparr>"

definition ex_events :: "event list" where
  "ex_events =
     [DOMContentLoaded, StartClick, Update (ex_snapshot 1 100), Update ex_no_news,
      Update ex_odd, PauseClick, Update (ex_snapshot 4 103), PauseClick,
      SimulationFinished \<lparr>message = ''done'', history = None\<rparr>]"


text \<open>A run in which the trader \<open>Random\<close> is worth 0 at its first step and 50 at its second.\<close>

definition ex_zero_start :: "event list" where
  "ex_zero_start =
     [DOMContentLoaded, StartClick,
      Update ((ex_snapshot 1 100)\<lparr>decisions := Some [ex_agent ''Random'' ''buy'' 0]\<rparr>),
      Update ((ex_snapshot 2 101)\<lparr>decisions := Some [ex_agent ''Random'' ''hold'' 50]\<rparr>)]"

definition ex_record :: "num \<Rightarrow> TraderRecord" where
  "ex_record v = \<lparr>h_step = Some 1, h_action = ''buy'', h_cash = 0, h_position = 0, h_value = v\<rparr>"

section \<open>What each handler leaves alone\<close>

lemma updatePriceChart_frame:
  "simulationHistory (updatePriceChart s p st) = simulationHistory s"
  "isPaused (updatePriceChart s p st) = isPaused s"
  "agentPerformance (updatePriceChart s p st) = agentPerformance s"
  "actionCounts (updatePriceChart s p st) = actionCounts s"
  "traderHistory (updatePriceChart s p st) = traderHistory s"
  "performanceChart (updatePriceChart s p st) = performanceChart s"
  by (simp_all add: updatePriceChart_def Let_def split: option.splits)

lemma updateAgent_frame:
  "simulationHistory (updateAgent s a) = simulationHistory s"
  "isPaused (updateAgent s a) = isPaused s"
  "priceChart (updateAgent s a) = priceChart s"
  "traderHistory (updateAgent s a) = traderHistory s"
  "performanceChart (updateAgent s a) = performanceChart s"
  by (simp_all add: updateAgent_def Let_def)

lemma foldl_updateAgent_frame:
  "simulationHistory (foldl updateAgent s agents) = simulationHistory s"
  "isPaused (foldl updateAgent s agents) = isPaused s"
  "priceChart (foldl updateAgent s agents) = priceChart s"
  "traderHistory (foldl updateAgent s agents) = traderHistory s"
  "performanceChart (foldl updateAgent s agents) = performanceChart s"
  by (induction agents arbitrary: s; simp add: updateAgent_frame)+

lemma updateAgents_frame:
  "simulationHistory (snd (updateAgents s ds)) = simulationHistory s"
  "isPaused (snd (updateAgents s ds)) = isPaused s"
  "priceChart (snd (updateAgents s ds)) = priceChart s"
  "traderHistory (snd (updateAgents s ds)) = traderHistory s"
  "performanceChart (snd (updateAgents s ds)) = performanceChart s"
  by (simp_all add: updateAgents_def foldl_updateAgent_frame split: option.splits)

lemma updateLLMPipeline_frame:
  "simulationHistory (snd (updateLLMPipeline s l)) = simulationHistory s"
  "isPaused (snd (updateLLMPipeline s l)) = isPaused s"
  "priceChart (snd (updateLLMPipeline s l)) = priceChart s"
  "traderHistory (snd (updateLLMPipeline s l)) = traderHistory s"
  "actionCounts (snd (updateLLMPipeline s l)) = actionCounts s"
  "performanceChart (snd (updateLLMPipeline s l)) = performanceChart s"
  by (simp_all add: updateLLMPipeline_def split: option.splits)

lemma trackTraderHistory_frame:
  "simulationHistory (snd (trackTraderHistory s ds st l)) = simulationHistory s"
  "isPaused (snd (trackTraderHistory s ds st l)) = isPaused s"
  "priceChart (snd (trackTraderHistory s ds st l)) = priceChart s"
  "agentPerformance (snd (trackTraderHistory s ds st l)) = agentPerformance s"
  "actionCounts (snd (trackTraderHistory s ds st l)) = actionCounts s"
  "performanceChart (snd (trackTraderHistory s ds st l)) = performanceChart s"
  by (simp_all add: trackTraderHistory_def split: option.splits prod.splits)

lemma snd_and_then:
  "snd (and_then r f) = (case fst r of None \<Rightarrow> snd (f (snd r)) | Some e \<Rightarrow> snd r)"
  by (simp add: and_then_def split: prod.splits option.splits)

lemma fst_and_then:
  "fst (and_then r f) = (case fst r of None \<Rightarrow> fst (f (snd r)) | Some e \<Rightarrow> Some e)"
  by (simp add: and_then_def split: prod.splits option.splits)

lemma snd_of_sum [simp]: "snd (of_sum r s) = s"
  by (simp add: of_sum_def split: sum.splits)

lemma on_update_history:
  "\<not> isPaused s \<Longrightarrow> simulationHistory (snd (on_update s d)) = simulationHistory s @ [d]"
  by (simp add: on_update_def snd_and_then updatePriceChart_frame updateAgents_frame
      updateLLMPipeline_frame trackTraderHistory_frame split: option.splits)

lemma on_update_isPaused: "isPaused (snd (on_update s d)) = isPaused s"
  by (simp add: on_update_def snd_and_then updatePriceChart_frame updateAgents_frame
      updateLLMPipeline_frame trackTraderHistory_frame split: option.splits)

lemma on_update_priceChart:
  "\<not> isPaused s \<Longrightarrow>
   priceChart (snd (on_update s d))
     = priceChart (updatePriceChart (s\<lparr>simulationHistory := simulationHistory s @ [d]\<rparr>)
         (price d) (step d))"
  by (simp add: on_update_def snd_and_then updateAgents_frame updateLLMPipeline_frame
      trackTraderHistory_frame split: option.splits)

lemma ex_fresh_simps:
  "priceChart ex_fresh = Some \<lparr>labels = [], data = []\<rparr>" "\<not> isPaused ex_fresh"
  "simulationHistory ex_fresh = []" "traderHistory ex_fresh = []"
  "actionCounts ex_fresh = \<lparr>buy = 0, sell = 0, hold = 0, nan_keys = []\<rparr>"
  by (simp_all add: ex_fresh_def initCharts_def initial_store_def)

lemma exn_is_TypeError: "x \<noteq> None \<Longrightarrow> x = Some TypeError"
  by (cases x; simp; metis exn.exhaust)

lemma and_then_simps [simp]:
  "and_then (None, s) f = f s"
  "and_then (Some e, s) f = (Some e, s)"
  by (simp_all add: and_then_def)

lemma of_sum_updateNews [simp]:
  "of_sum (updateNews None) s = (Some TypeError, s)"
  "of_sum (updateNews (Some txt)) s = (None, s)"
  by (simp_all add: of_sum_def updateNews_def)

lemma updateAgents_simps [simp]:
  "updateAgents s None = (Some TypeError, s)"
  "updateAgents s (Some agents) = (None, foldl updateAgent s agents)"
  by (simp_all add: updateAgents_def)

lemma updateLLMPipeline_None [simp]: "updateLLMPipeline s None = (Some TypeError, s)"
  by (simp add: updateLLMPipeline_def)

lemma updateLLMPipeline_Some: "fst (updateLLMPipeline s (Some l)) = None"
  by (simp add: updateLLMPipeline_def)

lemma and_then_fst_None: "fst r = None \<Longrightarrow> and_then r f = f (snd r)"
  by (cases r) simp

lemma on_update_throws:
  assumes "\<not> isPaused s"
    and "news d = None \<or> decisions d = None \<or> llm d = None \<or> price d = None"
  shows "fst (on_update s d) = Some TypeError"
proof (cases "news d")
  case None
  with assms(1) show ?thesis by (simp add: on_update_def)
next
  case news: (Some body)
  show ?thesis
  proof (cases "decisions d")
    case None
    with assms(1) news show ?thesis by (simp add: on_update_def)
  next
    case agents: (Some agents)
    show ?thesis
    proof (cases "llm d")
      case None
      with assms(1) news agents show ?thesis by (simp add: on_update_def)
    next
      case fund: (Some l)
      with assms(2) news agents have "price d = None" by simp
      with assms(1) news agents fund show ?thesis
        by (simp add: on_update_def and_then_fst_None updateLLMPipeline_Some
            updatePortfolioStats_def)
    qed
  qed
qed

section \<open>Pause\<close>

text \<open>
  C1. While the pause flag is set the update handler returns at once: the store it
  leaves is the store it found (history, price chart, tally, ledgers, performance index
  and everything else), nothing is thrown, and whatever events follow, the store evolves
  as if the snapshot had never been delivered, so nothing is buffered or replayed after
  the flag is cleared. The handler of \<open>static/js/dashboard.js\<close> has the same guard.
\<close>

theorem paused_update_is_noop:
  assumes "isPaused s"
  shows "on_update s d = (None, s)
         \<and> run s (Update d # evs) = run s evs
         \<and> dashboard_on_update s d = (None, s)"
  using assms by (simp add: on_update_def run_def dashboard_on_update_def)

theorem paused_update_is_noop_witness:
  "isPaused (on_pause ex_running)
   \<and> on_update (on_pause ex_running) (ex_snapshot 2 101) = (None, on_pause ex_running)
   \<and> run (on_pause ex_running) [Update (ex_snapshot 2 101), PauseClick, Update (ex_snapshot 3 102)]
       = run (on_pause ex_running) [PauseClick, Update (ex_snapshot 3 102)]"
proof -
  have paused: "isPaused (on_pause ex_running)"
    by (simp add: on_pause_def ex_running_def on_update_isPaused ex_fresh_def
        initCharts_def initial_store_def)
  show ?thesis
    using paused
      paused_update_is_noop [OF paused, of "ex_snapshot 2 101"
        "[PauseClick, Update (ex_snapshot 3 102)]"]
    by simp
qed

section \<open>Snapshots with a missing field\<close>

text \<open>
  C2, as the code has it. The update handler validates nothing and there is no decode
  error. A snapshot without its \<open>news\<close>, \<open>decisions\<close>, \<open>llm\<close> or \<open>price\<close> field, delivered
  while not paused, makes the handler throw a \<open>TypeError\<close> at the first use of the missing
  field, and by then the snapshot has been appended to the simulation history: the store
  is not as it was before the call.
\<close>

theorem missing_field_throws_after_append:
  assumes "\<not> isPaused s"
    and "news d = None \<or> decisions d = None \<or> llm d = None \<or> price d = None"
  shows "fst (on_update s d) = Some TypeError
         \<and> simulationHistory (snd (on_update s d)) = simulationHistory s @ [d]"
  using assms on_update_throws on_update_history by blast

theorem missing_field_throws_after_append_witness:
  "\<not> isPaused ex_fresh \<and> news ex_no_news = None
   \<and> fst (on_update ex_fresh ex_no_news) = Some TypeError
   \<and> simulationHistory (snd (on_update ex_fresh ex_no_news))
       = simulationHistory ex_fresh @ [ex_no_news]"
proof -
  have running: "\<not> isPaused ex_fresh"
    by (simp add: ex_fresh_def initCharts_def initial_store_def)
  have missing: "news ex_no_news = None"
    by (simp add: ex_no_news_def)
  show ?thesis
    using running missing missing_field_throws_after_append [OF running, of ex_no_news]
    by simp
qed

text \<open>
  The claim as written fails: on the store with fresh charts the snapshot without
  \<open>news\<close> is answered with a \<open>TypeError\<close>, and the history is no longer the one before
  the call.
\<close>

theorem missing_news_counterexample:
  "fst (on_update ex_fresh ex_no_news) = Some TypeError
   \<and> simulationHistory (snd (on_update ex_fresh ex_no_news)) \<noteq> simulationHistory ex_fresh"
proof -
  have running: "\<not> isPaused ex_fresh"
    by (simp add: ex_fresh_def initCharts_def initial_store_def)
  have "news ex_no_news = None"
    by (simp add: ex_no_news_def)
  then have "fst (on_update ex_fresh ex_no_news) = Some TypeError"
    using running on_update_throws by blast
  moreover have "simulationHistory (snd (on_update ex_fresh ex_no_news))
                   = simulationHistory ex_fresh @ [ex_no_news]"
    using running by (rule on_update_history)
  ultimately show ?thesis by simp
qed

section \<open>Start\<close>

text \<open>
  C6, as the code has it. The start handler empties the simulation history, the trader
  ledgers, the performance index and the tally, and only then sends the start command
  (the reset waits for no acknowledgement). It leaves the price chart, and with it the
  rolling price window, and the pause flag as they were. The start handler of
  \<open>static/js/dashboard.js\<close> does the same for the index and the tally, the only derived
  variables it has.
\<close>

theorem start_resets_derived_state:
  "simulationHistory (fst (on_start s)) = []
   \<and> traderHistory (fst (on_start s)) = []
   \<and> (\<forall>k. ledger (fst (on_start s)) k = [])
   \<and> agentPerformance (fst (on_start s)) = []
   \<and> actionCounts (fst (on_start s)) = \<lparr>buy = 0, sell = 0, hold = 0, nan_keys = []\<rparr>
   \<and> tally_sum (fst (on_start s)) = 0
   \<and> snd (on_start s) = ''start_simulation''
   \<and> priceChart (fst (on_start s)) = priceChart s
   \<and> price_window (fst (on_start s)) = price_window s
   \<and> isPaused (fst (on_start s)) = isPaused s
   \<and> agentPerformance (fst (dashboard_on_start s)) = []
   \<and> tally_sum (fst (dashboard_on_start s)) = 0
   \<and> price_window (fst (dashboard_on_start s)) = price_window s
   \<and> isPaused (fst (dashboard_on_start s)) = isPaused s"
  by (simp add: on_start_def dashboard_on_start_def ledger_def ledger_of_def tally_sum_def
      price_window_def)

theorem start_resets_derived_state_witness:
  "simulationHistory ex_running \<noteq> []
   \<and> simulationHistory (fst (on_start ex_running)) = []
   \<and> traderHistory (fst (on_start ex_running)) = []
   \<and> agentPerformance (fst (on_start ex_running)) = []
   \<and> tally_sum (fst (on_start ex_running)) = 0
   \<and> price_window (fst (on_start ex_running)) = price_window ex_running
   \<and> isPaused (fst (on_start ex_running)) = isPaused ex_running"
proof -
  have "simulationHistory ex_running = simulationHistory ex_fresh @ [ex_snapshot 1 100]"
    unfolding ex_running_def
    by (rule on_update_history) (simp add: ex_fresh_def initCharts_def initial_store_def)
  then show ?thesis
    using start_resets_derived_state [of ex_running] by simp
qed

text \<open>
  The claim as written fails on the rolling price window: after one update the window
  holds a point, and the start handler keeps it.
\<close>

theorem start_keeps_price_window_counterexample:
  "price_window (fst (on_start ex_running)) = [(StepLabel (Some 1), Some 100)]"
proof -
  have "priceChart ex_running
          = priceChart (updatePriceChart
              (ex_fresh\<lparr>simulationHistory := simulationHistory ex_fresh @ [ex_snapshot 1 100]\<rparr>)
              (price (ex_snapshot 1 100)) (step (ex_snapshot 1 100)))"
    unfolding ex_running_def by (rule on_update_priceChart) (simp add: ex_fresh_simps)
  then show ?thesis
    by (simp add: on_start_def price_window_def updatePriceChart_def ex_fresh_simps
        ex_snapshot_def)
qed

section \<open>Sentiment of the news\<close>

lemma starts_with_iff: "starts_with s t \<longleftrightarrow> (\<exists>after. s = t @ after)"
  by (induction s t rule: starts_with.induct) auto

lemma str_includes_iff: "str_includes s t \<longleftrightarrow> occurs t s"
proof (induction s)
  case Nil
  show ?case by (auto simp add: occurs_def)
next
  case (Cons c s)
  have "occurs t (c # s) \<longleftrightarrow> (\<exists>after. c # s = t @ after) \<or> occurs t s"
  proof
    assume "occurs t (c # s)"
    then obtain before after where split: "c # s = before @ t @ after"
      by (auto simp add: occurs_def)
    show "(\<exists>after. c # s = t @ after) \<or> occurs t s"
    proof (cases before)
      case Nil
      with split show ?thesis by auto
    next
      case (Cons b rest)
      with split have "s = rest @ t @ after" by simp
      then show ?thesis by (auto simp add: occurs_def)
    qed
  next
    assume "(\<exists>after. c # s = t @ after) \<or> occurs t s"
    then show "occurs t (c # s)"
    proof
      assume "\<exists>after. c # s = t @ after"
      then obtain after where "c # s = [] @ t @ after" by auto
      then show ?thesis unfolding occurs_def by blast
    next
      assume "occurs t s"
      then obtain before after where "s = before @ t @ after"
        by (auto simp add: occurs_def)
      then have "c # s = (c # before) @ t @ after" by simp
      then show ?thesis unfolding occurs_def by blast
    qed
  qed
  with Cons show ?case by (simp add: starts_with_iff)
qed

lemma occurs_code: "occurs w txt = str_includes txt w"
  by (simp add: str_includes_iff)

text \<open>
  C7. For every news string the label \<open>updateNews\<close> shows is that of the first rule, in
  the order Bullish (\<open>Very positive\<close>, \<open>rally\<close>), Positive (\<open>positive\<close>, \<open>upward\<close>), Bearish
  (\<open>Very negative\<close>, \<open>crash\<close>), Negative (\<open>negative\<close>, \<open>declin\<close>), one of whose key words
  the news contains, and Neutral (shown as \<open>neutral\<close>) when there is none. The three
  examples of the specification come out as Bullish, Negative and Neutral.
\<close>

theorem sentiment_first_match_wins:
  "map_sum id fst (updateNews (Some txt)) = Inr (badge_text (classify txt))
   \<and> classify ''Market rally: prices very positive today'' = Bullish
   \<and> classify ''Slight negative decline'' = Negative
   \<and> classify ''steady session'' = Neutral"
proof -
  have "map_sum id fst (updateNews (Some txt)) = Inr (badge_text (classify txt))"
    by (simp add: updateNews_def classify_def sentiment_rules_def str_includes_iff)
  moreover have "classify ''Market rally: prices very positive today'' = Bullish"
    by (simp add: classify_def sentiment_rules_def occurs_code)
  moreover have "classify ''Slight negative decline'' = Negative"
    by (simp add: classify_def sentiment_rules_def occurs_code)
  moreover have "classify ''steady session'' = Neutral"
    by (simp add: classify_def sentiment_rules_def occurs_code)
  ultimately show ?thesis by blast
qed

theorem sentiment_first_match_wins_witness:
  "classify ''Sudden crash, analysts stay positive'' = Positive
   \<and> map_sum id fst (updateNews (Some ''Sudden crash, analysts stay positive''))
       = Inr ''Positive''"
proof -
  have "classify ''Sudden crash, analysts stay positive'' = Positive"
    by (simp add: classify_def sentiment_rules_def occurs_code)
  then show ?thesis
    using sentiment_first_match_wins [of "''Sudden crash, analysts stay positive''"] by simp
qed

section \<open>Total return of a ledger\<close>

lemma total_return_example:
  "traderSummary [ex_record 100, ex_record 150, ex_record 90]
     = Inr \<lparr>startValue = 100, endValue = 90, totalReturn = Plain ''-10.00'',
            totalTrades = 3\<rparr>"
  by code_simp

text \<open>The quotient is rounded before it is multiplied: 160, 109 prints -31.87.\<close>

lemma total_return_rounded:
  "traderSummary [ex_record 160, ex_record 109]
     = Inr \<lparr>startValue = 160, endValue = 109, totalReturn = Plain ''-31.87'',
            totalTrades = 2\<rparr>"
  by code_simp

text \<open>
  C5 at a ledger that starts at 0. The summary divides by the first value without a
  guard: for the values 0, 50 the total return printed is \<open>Infinity\<close>, and for 0, 0 it is
  \<open>NaN\<close>, where the claim has 0. The \<open>Change\<close> column of the same table does guard its
  division and prints \<open>0.00\<close> after a value of 0. Such a ledger arises from a run in
  which a trader is worth 0 at its first step.
\<close>

theorem total_return_zero_start:
  "traderSummary [ex_record 0, ex_record 50]
     = Inr \<lparr>startValue = 0, endValue = 50, totalReturn = Plain ''Infinity'',
            totalTrades = 2\<rparr>
   \<and> traderSummary [ex_record 0, ex_record 0]
     = Inr \<lparr>startValue = 0, endValue = 0, totalReturn = Plain ''NaN'', totalTrades = 2\<rparr>
   \<and> traderRows [ex_record 0, ex_record 50]
     = [(Finite 0, Plain ''0.00''), (Finite 50, Plain ''0.00'')]
   \<and> map_option traderSummary (map_of (traderHistory (run initial_store ex_zero_start)) ''Random'')
     = Some (Inr \<lparr>startValue = 0, endValue = 50, totalReturn = Plain ''Infinity'',
                  totalTrades = 1\<rparr>)"
proof -
  have "map_option traderSummary
          (map_of (traderHistory (run initial_store ex_zero_start)) ''Random'')
        = Some (Inr \<lparr>startValue = 0, endValue = 50, totalReturn = Plain ''Infinity'',
                     totalTrades = 1\<rparr>)"
    by code_simp
  moreover have "traderSummary [ex_record 0, ex_record 50]
     = Inr \<lparr>startValue = 0, endValue = 50, totalReturn = Plain ''Infinity'',
            totalTrades = 2\<rparr>"
    by code_simp
  moreover have "traderSummary [ex_record 0, ex_record 0]
     = Inr \<lparr>startValue = 0, endValue = 0, totalReturn = Plain ''NaN'', totalTrades = 2\<rparr>"
    by code_simp
  moreover have "traderRows [ex_record 0, ex_record 50]
     = [(Finite 0, Plain ''0.00''), (Finite 50, Plain ''0.00'')]"
    by code_simp
  ultimately show ?thesis by blast
qed

section \<open>Well-formed snapshots are accepted\<close>

lemma accept_all_run:
  "accept_all s ds = Some s' \<Longrightarrow> s' = run s (map Update ds)"
  by (induction ds arbitrary: s) (auto simp add: run_def split: prod.splits option.splits)

lemma fund_not_inherited: "''LLM Fund'' \<notin> set object_prototype_keys"
  by (simp add: object_prototype_keys_def)

lemma ledger_push_ok: "k \<notin> set object_prototype_keys \<Longrightarrow> fst (ledger_push k r th) = None"
  by (simp add: ledger_push_def split: option.splits)

lemma track_agents_ok:
  "list_all (\<lambda>a. d_name a \<notin> set object_prototype_keys) agents
   \<Longrightarrow> fst (track_agents agents st th) = None"
proof (induction agents arbitrary: th)
  case Nil
  show ?case by simp
next
  case (Cons a agents)
  then have "fst (ledger_push (d_name a) (agent_record st a) th) = None"
    by (simp add: ledger_push_ok)
  with Cons show ?case
    by (cases "ledger_push (d_name a) (agent_record st a) th") simp
qed

lemma trackTraderHistory_ok:
  assumes "list_all (\<lambda>a. d_name a \<notin> set object_prototype_keys) agents"
  shows "fst (trackTraderHistory s (Some agents) st (Some l)) = None"
proof -
  obtain th where t: "track_agents agents st (traderHistory s) = (None, th)"
    using track_agents_ok [OF assms, of st "traderHistory s"]
    by (cases "track_agents agents st (traderHistory s)") simp
  obtain th' where "ledger_push ''LLM Fund'' (llm_record st l) th = (None, th')"
    using ledger_push_ok [OF fund_not_inherited, of "llm_record st l" th]
    by (cases "ledger_push ''LLM Fund'' (llm_record st l) th") simp
  with t show ?thesis by (simp add: trackTraderHistory_def)
qed

lemma on_update_accepts:
  assumes "\<not> isPaused s" "wf_snapshot d" "chartable (simulationHistory s)"
  shows "fst (on_update s d) = None \<and> chartable (simulationHistory (snd (on_update s d)))"
proof -
  from assms(2) obtain body p l agents where
    fields: "news d = Some body" "price d = Some p" "llm d = Some l" "decisions d = Some agents"
    and names: "list_all (\<lambda>a. d_name a \<notin> set object_prototype_keys) agents"
    by (auto simp add: wf_snapshot_def decisions_of_def)
  have hist: "simulationHistory (snd (on_update s d)) = simulationHistory s @ [d]"
    using assms(1) by (rule on_update_history)
  with assms(3) fields names have ok: "chartable (simulationHistory (snd (on_update s d)))"
    by (simp add: chartable_def breaks_chart_def list_all_iff list_ex_iff)
  have "fst (on_update s d) = updatePerformanceChart (snd (on_update s d))"
    using assms(1) fields trackTraderHistory_ok [OF names]
    by (simp add: on_update_def and_then_fst_None updateLLMPipeline_Some
        updatePortfolioStats_def)
  moreover have "updatePerformanceChart (snd (on_update s d)) = None"
    using ok by (auto simp add: updatePerformanceChart_def chartable_def list_all_iff list_ex_iff)
  ultimately show ?thesis using ok by simp
qed

lemma accept_all_wf:
  assumes "\<not> isPaused s" "list_all wf_snapshot ds" "chartable (simulationHistory s)"
  shows "accept_all s ds = Some (run s (map Update ds))"
  using assms
proof (induction ds arbitrary: s)
  case Nil
  show ?case by (simp add: run_def)
next
  case (Cons d ds)
  obtain e s1 where r: "on_update s d = (e, s1)" by (cases "on_update s d")
  with on_update_accepts [OF Cons.prems(1) _ Cons.prems(3), of d] Cons.prems(2)
  have e: "e = None" and ok: "chartable (simulationHistory s1)" by simp_all
  have "\<not> isPaused s1"
    using on_update_isPaused [of s d] r Cons.prems(1) by simp
  from Cons.IH [OF this _ ok] Cons.prems(2)
  have "accept_all s1 ds = Some (run s1 (map Update ds))" by simp
  with r e show ?case by (simp add: run_def)
qed

lemma wf_ex_snapshot: "wf_snapshot (ex_snapshot st p)"
  by (simp add: wf_snapshot_def ex_snapshot_def decisions_of_def ex_agent_def
      object_prototype_keys_def)

lemma ex_feed_accepted: "accept_all ex_fresh ex_feed = Some (run ex_fresh (map Update ex_feed))"
  by (rule accept_all_wf)
     (simp_all add: ex_fresh_simps chartable_def ex_feed_def list_all_iff wf_ex_snapshot)

section \<open>The rolling price window\<close>

text \<open>One push onto a window of at most 30 points, and a run of them.\<close>

lemma drop_window_step:
  assumes "length w \<le> 30" "m = min 30 (length w + 1)"
  shows "drop (m + n - 30) (drop (length w + 1 - 30) (w @ [x]) @ xs)
           = drop (length w + Suc n - 30) (w @ x # xs)"
proof (cases "length w = 30")
  case True
  then obtain a w' where "w = a # w'" by (cases w) auto
  with True assms(2) show ?thesis by simp
next
  case False
  with assms show ?thesis by simp
qed

lemma updatePriceChart_window:
  assumes "priceChart s = Some c" "length (labels c) = length (data c)"
    "length (labels c) \<le> 30" "\<not> isPaused s"
  shows "\<exists>c'. priceChart (updatePriceChart s p st) = Some c'
           \<and> length (labels c') = length (data c') \<and> length (labels c') \<le> 30
           \<and> zip (labels c') (data c')
               = drop (length (labels c) + 1 - 30)
                   (zip (labels c) (data c) @ [(StepLabel st, p)])"
proof (cases "length (labels c) = 30")
  case True
  with assms(2) have ne: "labels c \<noteq> []" "data c \<noteq> []" by auto
  then have "zip (tl (labels c) @ [StepLabel st]) (tl (data c) @ [p])
               = drop 1 (zip (labels c) (data c) @ [(StepLabel st, p)])"
    using assms(2) by (cases "labels c"; cases "data c"; simp)
  with True assms ne show ?thesis
    by (simp add: updatePriceChart_def Let_def)
next
  case False
  with assms show ?thesis
    by (simp add: updatePriceChart_def Let_def)
qed

lemma on_update_window:
  assumes "priceChart s = Some c" "length (labels c) = length (data c)"
    "length (labels c) \<le> 30" "\<not> isPaused s"
  shows "\<exists>c'. priceChart (snd (on_update s d)) = Some c'
           \<and> length (labels c') = length (data c') \<and> length (labels c') \<le> 30
           \<and> zip (labels c') (data c')
               = drop (length (labels c) + 1 - 30) (zip (labels c) (data c) @ [window_point d])"
proof -
  let ?s = "s\<lparr>simulationHistory := simulationHistory s @ [d]\<rparr>"
  have "priceChart ?s = Some c" "\<not> isPaused ?s"
    using assms by simp_all
  from updatePriceChart_window [OF this(1) assms(2) assms(3) this(2), of "price d" "step d"]
  show ?thesis
    using assms(4) by (simp add: on_update_priceChart window_point_def)
qed

lemma accept_all_window:
  assumes "priceChart s = Some c" "length (labels c) = length (data c)"
    "length (labels c) \<le> 30" "\<not> isPaused s" "accept_all s ds = Some s'"
  shows "\<exists>c'. priceChart s' = Some c'
           \<and> length (labels c') = length (data c') \<and> length (labels c') \<le> 30
           \<and> zip (labels c') (data c')
               = drop (length (labels c) + length ds - 30)
                   (zip (labels c) (data c) @ map window_point ds)"
  using assms
proof (induction ds arbitrary: s c)
  case Nil
  then show ?case by simp
next
  case (Cons d ds)
  from Cons.prems(5) obtain s1 where
    step1: "on_update s d = (None, s1)" and rest: "accept_all s1 ds = Some s'"
    by (auto split: prod.splits option.splits)
  from on_update_window [OF Cons.prems(1-4), of d] step1 obtain c1 where
    c1: "priceChart s1 = Some c1" "length (labels c1) = length (data c1)"
      "length (labels c1) \<le> 30"
      "zip (labels c1) (data c1)
         = drop (length (labels c) + 1 - 30) (zip (labels c) (data c) @ [window_point d])"
    by auto
  have running: "\<not> isPaused s1"
    using on_update_isPaused [of s d] step1 Cons.prems(4) by simp
  from Cons.IH [OF c1(1-3) running rest] obtain c' where
    c': "priceChart s' = Some c'" "length (labels c') = length (data c')"
      "length (labels c') \<le> 30"
      "zip (labels c') (data c')
         = drop (length (labels c1) + length ds - 30)
             (zip (labels c1) (data c1) @ map window_point ds)"
    by auto
  let ?w = "zip (labels c) (data c)"
  have lw: "length ?w = length (labels c)"
    using Cons.prems(2) by simp
  have l1: "length (labels c1) = min 30 (length (labels c) + 1)"
  proof -
    have "length (labels c1) = length (zip (labels c1) (data c1))"
      using c1(2) by simp
    also have "\<dots> = length ?w + 1 - (length (labels c) + 1 - 30)"
      by (simp add: c1(4))
    finally show ?thesis using lw Cons.prems(3) by simp
  qed
  have "drop (length (labels c1) + length ds - 30)
          (drop (length ?w + 1 - 30) (?w @ [window_point d]) @ map window_point ds)
        = drop (length ?w + Suc (length ds) - 30)
            (?w @ window_point d # map window_point ds)"
    by (rule drop_window_step) (use lw l1 Cons.prems(3) in simp_all)
  then have "drop (length (labels c1) + length ds - 30)
          (drop (length (labels c) + 1 - 30) (?w @ [window_point d]) @ map window_point ds)
        = drop (length (labels c) + length (d # ds) - 30)
            (?w @ map window_point (d # ds))"
    using lw by simp
  with c' c1(4) show ?case by simp
qed

text \<open>
  C3. From an empty price window (the chart as \<open>initCharts\<close> creates it), after \<open>N\<close>
  snapshots accepted while not paused the window holds exactly \<open>min N 30\<close> points: the
  (step, price) pairs of the last 30 of them, in arrival order, the oldest dropped first.
\<close>

theorem price_window_last_30:
  assumes "priceChart s = Some \<lparr>labels = [], data = []\<rparr>"
    and "\<not> isPaused s"
    and "accept_all s ds = Some s'"
  shows "length (price_window s') = min (length ds) 30
         \<and> price_window s' = map window_point (drop (length ds - 30) ds)"
proof -
  from accept_all_window [OF assms(1) _ _ assms(2) assms(3)]
  have w: "price_window s' = drop (length ds - 30) (map window_point ds)"
    by (auto simp add: price_window_def)
  then show ?thesis by (simp add: drop_map)
qed

theorem price_window_last_30_witness:
  "priceChart ex_fresh = Some \<lparr>labels = [], data = []\<rparr> \<and> \<not> isPaused ex_fresh
   \<and> accept_all ex_fresh ex_feed = Some (run ex_fresh (map Update ex_feed))
   \<and> length (price_window (run ex_fresh (map Update ex_feed))) = 30
   \<and> price_window (run ex_fresh (map Update ex_feed)) = map window_point (drop 2 ex_feed)"
proof -
  have n: "length ex_feed = 32" by (simp add: ex_feed_def)
  show ?thesis
    using price_window_last_30 [OF ex_fresh_simps(1) ex_fresh_simps(2) ex_feed_accepted]
      ex_fresh_simps(1,2) ex_feed_accepted n
    by simp
qed

section \<open>Tally and ledgers\<close>

lemma updateAgent_tally:
  "tally_sum (updateAgent s a) = tally_sum s + (if recognized (d_action a) then 1 else 0)"
  by (simp add: updateAgent_def tally_sum_def in_actionCounts_def increment_def
      recognized_def Let_def)

lemma updateAgent_unrecognized:
  assumes "\<not> recognized (d_action a)"
  shows "buy (actionCounts (updateAgent s a)) = buy (actionCounts s)"
    and "sell (actionCounts (updateAgent s a)) = sell (actionCounts s)"
    and "hold (actionCounts (updateAgent s a)) = hold (actionCounts s)"
  using assms
  by (simp_all add: updateAgent_def in_actionCounts_def increment_def recognized_def Let_def)

lemma foldl_updateAgent_tally:
  "tally_sum (foldl updateAgent s agents)
     = tally_sum s + length (filter (\<lambda>a. recognized (d_action a)) agents)"
  by (induction agents arbitrary: s) (simp_all add: updateAgent_tally)

text \<open>What an update that ran to its end has done.\<close>

lemma on_update_accepted:
  assumes "\<not> isPaused s" "fst (on_update s d) = None"
  obtains agents l s5 where
    "decisions d = Some agents" "llm d = Some l"
    "s5 = snd (updateLLMPipeline
                (foldl updateAgent
                   (updatePriceChart (s\<lparr>simulationHistory := simulationHistory s @ [d]\<rparr>)
                      (price d) (step d))
                   agents)
                (Some l))"
    "fst (trackTraderHistory s5 (Some agents) (step d) (Some l)) = None"
    "snd (on_update s d) = snd (trackTraderHistory s5 (Some agents) (step d) (Some l))"
proof -
  from on_update_throws [OF assms(1), of d] assms(2)
  obtain body agents l p where
    fields: "news d = Some body" "decisions d = Some agents" "llm d = Some l"
      "price d = Some p"
    by (cases "news d"; cases "decisions d"; cases "llm d"; cases "price d") auto
  define s5 where
    "s5 = snd (updateLLMPipeline
                (foldl updateAgent
                   (updatePriceChart (s\<lparr>simulationHistory := simulationHistory s @ [d]\<rparr>)
                      (price d) (step d))
                   agents)
                (Some l))"
  obtain e s7 where t: "trackTraderHistory s5 (Some agents) (step d) (Some l) = (e, s7)"
    by (cases "trackTraderHistory s5 (Some agents) (step d) (Some l)")
  have run: "on_update s d
               = and_then (trackTraderHistory s5 (Some agents) (step d) (Some l))
                   (\<lambda>s7. (updatePerformanceChart s7, s7))"
    using assms(1) fields
    by (simp add: on_update_def and_then_fst_None updateLLMPipeline_Some
        updatePortfolioStats_def s5_def)
  with t assms(2) have "e = None"
    by (cases e) simp_all
  with t run have "fst (trackTraderHistory s5 (Some agents) (step d) (Some l)) = None"
    "snd (on_update s d) = snd (trackTraderHistory s5 (Some agents) (step d) (Some l))"
    by simp_all
  with fields s5_def that show thesis by blast
qed

lemma on_update_tally:
  assumes "\<not> isPaused s" "fst (on_update s d) = None"
  shows "tally_sum (snd (on_update s d))
           = tally_sum s + length (filter (\<lambda>a. recognized (d_action a)) (decisions_of d))"
proof -
  from assms obtain agents l s5 where
    a: "decisions d = Some agents"
    and s5: "s5 = snd (updateLLMPipeline
                (foldl updateAgent
                   (updatePriceChart (s\<lparr>simulationHistory := simulationHistory s @ [d]\<rparr>)
                      (price d) (step d))
                   agents)
                (Some l))"
    and out: "snd (on_update s d) = snd (trackTraderHistory s5 (Some agents) (step d) (Some l))"
    by (rule on_update_accepted)
  have "tally_sum (snd (on_update s d)) = tally_sum s5"
    by (simp add: out tally_sum_def trackTraderHistory_frame)
  also have "\<dots> = tally_sum (foldl updateAgent
                   (updatePriceChart (s\<lparr>simulationHistory := simulationHistory s @ [d]\<rparr>)
                      (price d) (step d)) agents)"
    by (simp add: s5 tally_sum_def updateLLMPipeline_frame)
  also have "\<dots> = tally_sum s + length (filter (\<lambda>a. recognized (d_action a)) agents)"
    by (simp add: foldl_updateAgent_tally) (simp add: tally_sum_def updatePriceChart_frame)
  finally show ?thesis by (simp add: decisions_of_def a)
qed

lemma ledger_push_ledger_of:
  assumes "ledger_push k r th = (None, th')"
  shows "ledger_of th' k' = (if k' = k then ledger_of th k @ [r] else ledger_of th k')"
  using assms
  by (auto simp add: ledger_push_def ledger_of_def update_conv' split: option.splits if_splits)

lemma track_agents_ledger_of:
  assumes "track_agents agents st th = (None, th')"
  shows "ledger_of th' k
           = ledger_of th k @ map (agent_record st) (filter (\<lambda>a. d_name a = k) agents)"
  using assms
proof (induction agents arbitrary: th)
  case Nil
  then show ?case by simp
next
  case (Cons a agents)
  obtain e th1 where p: "ledger_push (d_name a) (agent_record st a) th = (e, th1)"
    by (cases "ledger_push (d_name a) (agent_record st a) th")
  with Cons.prems have e: "e = None" and rest: "track_agents agents st th1 = (None, th')"
    by (cases e; simp)+
  from Cons.IH [OF rest] ledger_push_ledger_of [of "d_name a" "agent_record st a" th th1 k]
    p e
  show ?case by simp
qed

lemma trackTraderHistory_ledger:
  assumes "fst (trackTraderHistory s (Some agents) st (Some l)) = None"
  shows "ledger (snd (trackTraderHistory s (Some agents) st (Some l))) k
           = ledger s k @ map (agent_record st) (filter (\<lambda>a. d_name a = k) agents)
             @ (if k = ''LLM Fund'' then [llm_record st l] else [])"
proof -
  obtain e th where t: "track_agents agents st (traderHistory s) = (e, th)"
    by (cases "track_agents agents st (traderHistory s)")
  obtain e' th' where p: "ledger_push ''LLM Fund'' (llm_record st l) th = (e', th')"
    by (cases "ledger_push ''LLM Fund'' (llm_record st l) th")
  from assms t have e: "e = None"
    by (cases e) (simp_all add: trackTraderHistory_def)
  with assms t p have e': "e' = None"
    by (simp add: trackTraderHistory_def)
  from t e p e' have "traderHistory (snd (trackTraderHistory s (Some agents) st (Some l))) = th'"
    by (simp add: trackTraderHistory_def)
  moreover have "ledger_of th' k
      = (if k = ''LLM Fund'' then ledger_of th ''LLM Fund'' @ [llm_record st l]
         else ledger_of th k)"
    using p e' by (simp add: ledger_push_ledger_of)
  moreover have "ledger_of th k
      = ledger_of (traderHistory s) k
        @ map (agent_record st) (filter (\<lambda>a. d_name a = k) agents)" for k
    using t e by (simp add: track_agents_ledger_of)
  ultimately show ?thesis by (simp add: ledger_def)
qed

lemma on_update_ledger:
  assumes "\<not> isPaused s" "fst (on_update s d) = None"
  shows "ledger (snd (on_update s d)) k = ledger s k @ ledger_entries d k"
proof -
  from assms obtain agents l s5 where
    a: "decisions d = Some agents" and l: "llm d = Some l"
    and s5: "s5 = snd (updateLLMPipeline
                (foldl updateAgent
                   (updatePriceChart (s\<lparr>simulationHistory := simulationHistory s @ [d]\<rparr>)
                      (price d) (step d))
                   agents)
                (Some l))"
    and ok: "fst (trackTraderHistory s5 (Some agents) (step d) (Some l)) = None"
    and out: "snd (on_update s d) = snd (trackTraderHistory s5 (Some agents) (step d) (Some l))"
    by (rule on_update_accepted)
  have "traderHistory s5 = traderHistory s"
    by (simp add: s5 updateLLMPipeline_frame foldl_updateAgent_frame updatePriceChart_frame)
  then have "ledger s5 k = ledger s k"
    by (simp add: ledger_def)
  with trackTraderHistory_ledger [OF ok, of k] show ?thesis
    by (simp add: out ledger_entries_def decisions_of_def a l)
qed

lemma accept_all_tally_ledger:
  assumes "\<not> isPaused s" "accept_all s ds = Some s'"
  shows "tally_sum s'
           = tally_sum s
             + length (filter (\<lambda>a. recognized (d_action a)) (concat (map decisions_of ds)))"
    and "ledger s' k = ledger s k @ concat (map (\<lambda>d. ledger_entries d k) ds)"
  using assms
proof (induction ds arbitrary: s)
  case Nil
  { case 1 then show ?case by simp }
  { case 2 then show ?case by simp }
next
  case (Cons d ds)
  { case 1
    then obtain s1 where r: "on_update s d = (None, s1)" and rest: "accept_all s1 ds = Some s'"
      by (auto split: prod.splits option.splits)
    have running: "\<not> isPaused s1"
      using on_update_isPaused [of s d] r 1(1) by simp
    from on_update_tally [OF 1(1), of d] r Cons.IH(1) [OF running rest]
    show ?case by simp }
  { case 2
    then obtain s1 where r: "on_update s d = (None, s1)" and rest: "accept_all s1 ds = Some s'"
      by (auto split: prod.splits option.splits)
    have running: "\<not> isPaused s1"
      using on_update_isPaused [of s d] r 2(1) by simp
    from on_update_ledger [OF 2(1), of d k] r Cons.IH(2) [OF running rest]
    show ?case by simp }
qed

text \<open>
  C4. After a sequence of snapshots accepted while not paused, the three counters
  together have grown by the number of decisions of those snapshots whose action is
  \<open>buy\<close>, \<open>sell\<close> or \<open>hold\<close> (from the zero tally of a start, their sum is that number).
  A decision with any other action leaves each of the three counters as it was; counting
  it raises nothing. Every decision, whatever its action, has its row appended to the
  ledger of its trader: each ledger grows by the rows of the accepted snapshots, in order.
\<close>

theorem tally_counts_recognized_actions:
  assumes "\<not> isPaused s" and "accept_all s ds = Some s'"
  shows "tally_sum s'
           = tally_sum s
             + length (filter (\<lambda>a. recognized (d_action a)) (concat (map decisions_of ds)))
         \<and> (\<forall>a st. \<not> recognized (d_action a) \<longrightarrow>
               buy (actionCounts (updateAgent st a)) = buy (actionCounts st)
               \<and> sell (actionCounts (updateAgent st a)) = sell (actionCounts st)
               \<and> hold (actionCounts (updateAgent st a)) = hold (actionCounts st)
               \<and> fst (updateAgents st (Some [a])) = None)
         \<and> (\<forall>k. ledger s' k = ledger s k @ concat (map (\<lambda>d. ledger_entries d k) ds))"
  using accept_all_tally_ledger [OF assms] updateAgent_unrecognized by simp

theorem tally_counts_recognized_actions_witness:
  "\<not> isPaused ex_fresh
   \<and> accept_all ex_fresh [ex_snapshot 1 100, ex_snapshot 2 101]
       = Some (run ex_fresh [Update (ex_snapshot 1 100), Update (ex_snapshot 2 101)])
   \<and> tally_sum (run ex_fresh [Update (ex_snapshot 1 100), Update (ex_snapshot 2 101)]) = 2
   \<and> \<not> recognized (d_action (ex_agent ''Holder'' ''wait'' 990))
   \<and> ledger (run ex_fresh [Update (ex_snapshot 1 100), Update (ex_snapshot 2 101)]) ''Holder''
       = [agent_record (Some 1) (ex_agent ''Holder'' ''wait'' 990),
          agent_record (Some 2) (ex_agent ''Holder'' ''wait'' 990)]"
proof -
  have acc: "accept_all ex_fresh [ex_snapshot 1 100, ex_snapshot 2 101]
       = Some (run ex_fresh (map Update [ex_snapshot 1 100, ex_snapshot 2 101]))"
    by (rule accept_all_wf) (simp_all add: ex_fresh_simps chartable_def wf_ex_snapshot)
  have zero: "tally_sum ex_fresh = 0" "ledger ex_fresh ''Holder'' = []"
    by (simp_all add: tally_sum_def ledger_def ledger_of_def ex_fresh_simps)
  show ?thesis
    using tally_counts_recognized_actions [OF ex_fresh_simps(2) acc] acc zero ex_fresh_simps(2)
    by (simp add: decisions_of_def ex_snapshot_def ex_agent_def recognized_def
        ledger_entries_def)
qed

section \<open>Ledgers are never empty\<close>

lemma ledgers_nonempty_update:
  "ledgers_nonempty th \<Longrightarrow> h \<noteq> [] \<Longrightarrow> ledgers_nonempty (AList.update k h th)"
  by (induction th) (auto simp add: ledgers_nonempty_def)

lemma ledger_push_nonempty:
  "ledgers_nonempty th \<Longrightarrow> ledgers_nonempty (snd (ledger_push k r th))"
  by (simp add: ledger_push_def ledgers_nonempty_update split: option.splits)

lemma track_agents_nonempty:
  "ledgers_nonempty th \<Longrightarrow> ledgers_nonempty (snd (track_agents agents st th))"
proof (induction agents arbitrary: th)
  case Nil
  then show ?case by simp
next
  case (Cons a agents)
  obtain e th1 where p: "ledger_push (d_name a) (agent_record st a) th = (e, th1)"
    by (cases "ledger_push (d_name a) (agent_record st a) th")
  with ledger_push_nonempty [OF Cons.prems, of "d_name a" "agent_record st a"]
  have "ledgers_nonempty th1" by simp
  with Cons.IH [of th1] p show ?case
    by (cases e) simp_all
qed

lemma trackTraderHistory_nonempty:
  assumes "ledgers_nonempty (traderHistory s)"
  shows "ledgers_nonempty (traderHistory (snd (trackTraderHistory s ds st (Some l))))"
proof (cases ds)
  case None
  with assms show ?thesis by (simp add: trackTraderHistory_def)
next
  case (Some agents)
  obtain e th where t: "track_agents agents st (traderHistory s) = (e, th)"
    by (cases "track_agents agents st (traderHistory s)")
  with track_agents_nonempty [OF assms, of agents st] have th: "ledgers_nonempty th"
    by simp
  obtain e' th' where p: "ledger_push ''LLM Fund'' (llm_record st l) th = (e', th')"
    by (cases "ledger_push ''LLM Fund'' (llm_record st l) th")
  with ledger_push_nonempty [OF th, of "''LLM Fund''" "llm_record st l"]
  have "ledgers_nonempty th'" by simp
  with Some t th p show ?thesis
    by (cases e) (simp_all add: trackTraderHistory_def)
qed

lemma on_update_traderHistory:
  "traderHistory (snd (on_update s d)) = traderHistory s
   \<or> (\<exists>s5 l. traderHistory s5 = traderHistory s
        \<and> traderHistory (snd (on_update s d))
            = traderHistory (snd (trackTraderHistory s5 (decisions d) (step d) (Some l))))"
proof (cases "isPaused s")
  case True
  then show ?thesis by (simp add: on_update_def)
next
  case False
  let ?s2 = "updatePriceChart (s\<lparr>simulationHistory := simulationHistory s @ [d]\<rparr>)
               (price d) (step d)"
  have s2: "traderHistory ?s2 = traderHistory s"
    by (simp add: updatePriceChart_frame)
  show ?thesis
  proof (cases "news d")
    case None
    with False s2 show ?thesis by (simp add: on_update_def)
  next
    case news: (Some body)
    show ?thesis
    proof (cases "decisions d")
      case None
      with False news s2 show ?thesis by (simp add: on_update_def)
    next
      case agents: (Some agents)
      let ?s4 = "foldl updateAgent ?s2 agents"
      have s4: "traderHistory ?s4 = traderHistory s"
        by (simp add: foldl_updateAgent_frame s2)
      show ?thesis
      proof (cases "llm d")
        case None
        with False news agents s4 show ?thesis by (simp add: on_update_def)
      next
        case fund: (Some l)
        let ?s5 = "snd (updateLLMPipeline ?s4 (Some l))"
        have s5: "traderHistory ?s5 = traderHistory s"
          by (simp add: updateLLMPipeline_frame s4)
        show ?thesis
        proof (cases "price d")
          case None
          with False news agents fund s5 show ?thesis
            by (simp add: on_update_def and_then_fst_None updateLLMPipeline_Some
                updatePortfolioStats_def)
        next
          case (Some p)
          have "snd (on_update s d)
                  = snd (trackTraderHistory ?s5 (decisions d) (step d) (Some l))"
            using False news agents fund Some
            by (simp add: on_update_def and_then_fst_None updateLLMPipeline_Some
                updatePortfolioStats_def snd_and_then split: option.splits)
          with s5 show ?thesis by metis
        qed
      qed
    qed
  qed
qed

lemma on_update_nonempty:
  assumes "ledgers_nonempty (traderHistory s)"
  shows "ledgers_nonempty (traderHistory (snd (on_update s d)))"
  using on_update_traderHistory [of s d] assms trackTraderHistory_nonempty
  by (metis (no_types, lifting))

lemma handle_nonempty:
  assumes "ledgers_nonempty (traderHistory s)"
  shows "ledgers_nonempty (traderHistory (snd (handle s e)))"
proof (cases e)
  case (Update d)
  with assms show ?thesis by (simp add: on_update_nonempty)
next
  case (SimulationFinished fd)
  with assms show ?thesis by (simp add: on_finished_def Let_def snd_and_then split: option.splits)
qed (use assms in \<open>simp_all add: initCharts_def on_start_def on_pause_def ledgers_nonempty_def\<close>)

lemma run_nonempty:
  "ledgers_nonempty (traderHistory s) \<Longrightarrow> ledgers_nonempty (traderHistory (run s evs))"
  unfolding run_def
  by (induction evs arbitrary: s) (simp_all add: handle_nonempty)

lemma renderTraderHistory_defined:
  "ledgers_nonempty th \<Longrightarrow> \<exists>out. renderTraderHistory th = Inr out"
proof (induction th)
  case Nil
  show ?case by simp
next
  case (Cons kh th)
  obtain k h where kh: "kh = (k, h)" by (cases kh)
  with Cons.prems have "h \<noteq> []" "ledgers_nonempty th"
    by (simp_all add: ledgers_nonempty_def)
  with Cons.IH kh show ?case
    by (cases h) (auto simp add: traderSummary_def)
qed

text \<open>
  C10. After every sequence of events from the initial store (charts created, start,
  pause, updates whether accepted or thrown from, completion with or without an
  authoritative history), every key of the ledger mapping has at least one row: a key
  is created only by the assignment that the first \<open>push\<close> follows. So the summary of
  every listed trader reads a first and a last row: \<open>renderTraderHistory\<close> does not
  throw, and each summary has the first row's value as start and the last row's as end.
\<close>

theorem ledger_keys_have_rows:
  "ledgers_nonempty (traderHistory (run initial_store evs))
   \<and> (\<exists>out. renderTraderHistory (traderHistory (run initial_store evs)) = Inr out)
   \<and> (\<forall>k h. map_of (traderHistory (run initial_store evs)) k = Some h \<longrightarrow>
         h \<noteq> []
         \<and> map_sum id startValue (traderSummary h) = Inr (h_value (hd h))
         \<and> map_sum id endValue (traderSummary h) = Inr (h_value (last h)))"
proof -
  have "ledgers_nonempty (traderHistory initial_store)"
    by (simp add: initial_store_def ledgers_nonempty_def)
  then have inv: "ledgers_nonempty (traderHistory (run initial_store evs))"
    by (rule run_nonempty)
  have "h \<noteq> []
         \<and> map_sum id startValue (traderSummary h) = Inr (h_value (hd h))
         \<and> map_sum id endValue (traderSummary h) = Inr (h_value (last h))"
    if "map_of (traderHistory (run initial_store evs)) k = Some h" for k h
  proof -
    from that have "(k, h) \<in> set (traderHistory (run initial_store evs))"
      by (rule map_of_SomeD)
    with inv have "h \<noteq> []"
      by (auto simp add: ledgers_nonempty_def list_all_iff)
    then show ?thesis
      by (cases h) (simp_all add: traderSummary_def)
  qed
  with inv renderTraderHistory_defined [OF inv] show ?thesis by blast
qed

theorem ledger_keys_have_rows_witness:
  "map_of (traderHistory (run initial_store ex_events)) ''Holder''
     = Some [agent_record (Some 1) (ex_agent ''Holder'' ''wait'' 990)]
   \<and> ledgers_nonempty (traderHistory (run initial_store ex_events))
   \<and> map_sum id startValue (traderSummary [agent_record (Some 1) (ex_agent ''Holder'' ''wait'' 990)])
       = Inr 990"
proof -
  have "map_of (traderHistory (run initial_store ex_events)) ''Holder''
          = Some [agent_record (Some 1) (ex_agent ''Holder'' ''wait'' 990)]"
    by code_simp
  then show ?thesis
    using ledger_keys_have_rows [of ex_events]
    by (auto simp add: agent_record_def ex_agent_def)
qed

section \<open>Filtering the history\<close>







end
